theory Spec2Isabelle
  imports Main "HOL-Library.Sublist" "HOL-Library.AList" "HOL-Library.Multiset"
begin

section \<open>Data model of the client (types/index.ts)\<close>

text \<open>
  The enumerations of the client are datatypes; the string each member stands for in the
  TypeScript source is given by a separate function, since the code compares and prints
  these strings.
\<close>

datatype ContentType =
  TWITTER | INSTAGRAM | LINKEDIN | FACEBOOK | THUMBNAIL | TWITTER_IMAGE | INSTAGRAM_IMAGE

fun ContentType_value :: "ContentType \<Rightarrow> string" where
  "ContentType_value TWITTER = ''twitter''"
| "ContentType_value INSTAGRAM = ''instagram''"
| "ContentType_value LINKEDIN = ''linkedin''"
| "ContentType_value FACEBOOK = ''facebook''"
| "ContentType_value THUMBNAIL = ''thumbnail''"
| "ContentType_value TWITTER_IMAGE = ''twitter_image''"
| "ContentType_value INSTAGRAM_IMAGE = ''instagram_image''"

datatype JobStatus = PENDING | PROCESSING | COMPLETED | FAILED

fun JobStatus_value :: "JobStatus \<Rightarrow> string" where
  "JobStatus_value PENDING = ''pending''"
| "JobStatus_value PROCESSING = ''processing''"
| "JobStatus_value COMPLETED = ''completed''"
| "JobStatus_value FAILED = ''failed''"

text \<open>
  A value of a property that holds a string in JavaScript: the property can also be
  \<open>null\<close>, and a lookup of a key that an object does not have gives \<open>undefined\<close>.
\<close>

datatype jsstring = Undefined | Null | Str string

text \<open>
  The values stored under the keys of a metadata object, and a JavaScript object as the
  list of its own keys in insertion order.
\<close>

datatype jsval = JString string | JStrings "string list" | JContentTypes "ContentType list"

type_synonym jsobj = "(string \<times> jsval) list"

text \<open>
  Object spread \<open>{...a, ...b}\<close>: every key of \<open>b\<close>, in order, is assigned in \<open>a\<close>; a key
  that \<open>a\<close> already has keeps its position, a new key goes to the end.
\<close>

definition spread :: "jsobj \<Rightarrow> jsobj \<Rightarrow> jsobj" where
  "spread a b = foldl (\<lambda>acc (k, v). AList.update k v acc) a b"

text \<open>\<open>interface JobOutput\<close>; the fields \<open>id\<close>, \<open>created_at\<close> and \<open>updated_at\<close> carry the
  prefix \<open>output_\<close> since \<open>Job\<close> has fields of the same names.\<close>

record JobOutput =
  output_id :: string
  content_type :: ContentType
  content :: jsstring
  file_path :: "string option"
  output_created_at :: string
  output_updated_at :: string

text \<open>\<open>interface Job\<close>; \<open>id\<close> is \<open>job_id\<close>. The metadata object is open
  (\<open>[key: string]: any\<close>), so it is kept as an object.\<close>

record Job =
  job_id :: string
  title :: string
  status :: JobStatus
  created_at :: string
  updated_at :: string
  completed_at :: "string option"
  error_message :: "string option"
  job_metadata :: jsobj
  outputs :: "JobOutput list"

text \<open>\<open>job.job_metadata.content_types\<close>: the requested content types of a job.\<close>

definition content_types :: "Job \<Rightarrow> ContentType list" where
  "content_types j =
     (case map_of (job_metadata j) ''content_types'' of
        Some (JContentTypes cts) \<Rightarrow> cts
      | _ \<Rightarrow> [])"

text \<open>\<open>interface ContentSubmissionForm\<close>; the field \<open>content\<close> is \<open>form_content\<close> and
  \<open>content_types\<close> is \<open>form_content_types\<close>.\<close>

record ContentSubmissionForm =
  form_title :: string
  form_content :: string
  form_content_types :: "ContentType list"
  metadata :: "jsobj option"

section \<open>Mock data (services/mockData.ts)\<close>

text \<open>Decimal rendering of a number inside a template string.\<close>

fun string_of_nat :: "nat \<Rightarrow> string" where
  "string_of_nat n =
     (if n < 10 then [char_of (48 + n)]
      else string_of_nat (n div 10) @ [char_of (48 + n mod 10)])"

declare string_of_nat.simps [simp del]

text \<open>
  \<open>createMockOutput\<close>. The random suffix of the id and the two random dates are drawn by
  the caller and passed in (\<open>rid\<close>, \<open>created\<close>, \<open>updated\<close>).
\<close>

definition createMockOutput ::
  "string \<Rightarrow> string \<Rightarrow> string \<Rightarrow> string \<Rightarrow> ContentType \<Rightarrow> JobOutput" where
  "createMockOutput rid created updated jobId contentType =
     (let isImage = (contentType = THUMBNAIL \<or> contentType = TWITTER_IMAGE
                     \<or> contentType = INSTAGRAM_IMAGE)
      in \<lparr> output_id = ''output-'' @ rid,
           content_type = contentType,
           content = (if isImage then Null
                      else Str (''Mock content for '' @ ContentType_value contentType
                        @ ''. This is a generated text for demonstration purposes.'')),
           file_path = (if isImage
                        then Some (''https://picsum.photos/seed/'' @ jobId @ ''/800/600'')
                        else None),
           output_created_at = created,
           output_updated_at = updated \<rparr>)"

text \<open>\<open>randomStatus\<close>: \<open>i\<close> is \<open>Math.floor(Math.random() * statuses.length)\<close>, so \<open>i < 4\<close>.\<close>

definition statuses :: "JobStatus list" where
  "statuses = [COMPLETED, PROCESSING, PENDING, FAILED]"

definition randomStatus :: "nat \<Rightarrow> JobStatus" where
  "randomStatus i = statuses ! i"

text \<open>
  \<open>randomContentTypes\<close>: \<open>shuffled\<close> is the outcome of the random sort of \<open>allTypes\<close>
  (a rearrangement of it) and \<open>k\<close> is \<open>Math.floor(Math.random() * 3)\<close>, so \<open>k < 3\<close>;
  \<open>slice(0, k + 1)\<close> keeps the first \<open>k + 1\<close> elements.
\<close>

definition allTypes :: "ContentType list" where
  "allTypes = [TWITTER, INSTAGRAM, LINKEDIN, FACEBOOK, THUMBNAIL]"

definition randomContentTypes :: "ContentType list \<Rightarrow> nat \<Rightarrow> ContentType list" where
  "randomContentTypes shuffled k = take (k + 1) shuffled"

text \<open>
  The random draws of one call of \<open>createMockJob\<close>: the status index, the shuffle and the
  slice length, the dates of the job, and for the \<open>i\<close>-th call of \<open>createMockOutput\<close>
  its id suffix and its two dates (\<open>draw_output d i\<close>).
\<close>

record draws =
  draw_status :: nat
  draw_shuffled :: "ContentType list"
  draw_count :: nat
  draw_created :: string
  draw_updated :: string
  draw_completed :: string
  draw_output :: "nat \<Rightarrow> string \<times> string \<times> string"

definition mockOutput :: "draws \<Rightarrow> string \<Rightarrow> nat \<times> ContentType \<Rightarrow> JobOutput" where
  "mockOutput d jid it =
     (case draw_output d (fst it) of (r, c, u) \<Rightarrow> createMockOutput r c u jid (snd it))"

definition createMockJob :: "draws \<Rightarrow> string \<Rightarrow> Job" where
  "createMockJob d jid =
     (let status = randomStatus (draw_status d);
          contentTypes = randomContentTypes (draw_shuffled d) (draw_count d);
          createdAt = draw_created d;
          updatedAt = draw_updated d;
          outputs0 = map (mockOutput d jid) (enumerate 0 contentTypes);
          outputs1 = outputs0 @ [mockOutput d jid (length contentTypes, THUMBNAIL)]
      in \<lparr> job_id = jid,
           title = ''Mock Job '' @ jid,
           status = status,
           created_at = createdAt,
           updated_at = updatedAt,
           completed_at = (if status = COMPLETED then Some (draw_completed d) else None),
           error_message = (if status = FAILED then Some ''Mock error message'' else None),
           job_metadata =
             [(''content_types'', JContentTypes contentTypes),
              (''tone'', JString ''professional''),
              (''hashtags'', JStrings [''mock'', ''test'', ''demo''])],
           outputs = outputs1 \<rparr>)"

text \<open>
  \<open>createNewMockJob\<close>: the module-level array \<open>mockJobs\<close> is passed in and returned with
  the new job put in front (\<open>unshift\<close>); \<open>now1\<close> and \<open>now2\<close> are the two readings of the
  clock. A missing \<open>data.metadata\<close> spreads as the empty object.
\<close>

definition createNewMockJob ::
  "Job list \<Rightarrow> string \<Rightarrow> string \<Rightarrow> ContentSubmissionForm \<Rightarrow> Job \<times> Job list" where
  "createNewMockJob mockJobs now1 now2 data =
     (let newJob =
        \<lparr> job_id = ''job-'' @ string_of_nat (length mockJobs + 1),
          title = form_title data,
          status = PENDING,
          created_at = now1,
          updated_at = now2,
          completed_at = None,
          error_message = None,
          job_metadata =
            spread [(''content_types'', JContentTypes (form_content_types data))]
              (case metadata data of None \<Rightarrow> [] | Some m \<Rightarrow> m),
          outputs = [] \<rparr>
      in (newJob, newJob # mockJobs))"

section \<open>Polling of one job (hooks/useJobs.ts, pages/JobDetail.tsx)\<close>

text \<open>
  The values a callback of the client can be handed: \<open>undefined\<close>, \<open>null\<close>, a string,
  an array, or an object as the list of its properties.
\<close>

datatype js = VUndefined | VNull | VString string | VArray "js list" | VObject "(string \<times> js) list"

text \<open>
  \<open>v?.k\<close> for a property name \<open>k\<close>: the property of an object, \<open>undefined\<close> when the
  object has no such property and when \<open>v\<close> is \<open>undefined\<close>, \<open>null\<close>, a string or an
  array (names of string and array properties such as \<open>length\<close> are not read by the
  client's callback).
\<close>

fun optional_get :: "js \<Rightarrow> string \<Rightarrow> js" where
  "optional_get (VObject props) k = (case map_of props k of None \<Rightarrow> VUndefined | Some v \<Rightarrow> v)"
| "optional_get v k = VUndefined"

text \<open>A job as the object the backend answers with (\<open>interface Job\<close>), field by field.\<close>

definition nullable :: "string option \<Rightarrow> js" where
  "nullable v = (case v of None \<Rightarrow> VNull | Some s \<Rightarrow> VString s)"

fun jsval_object :: "jsval \<Rightarrow> js" where
  "jsval_object (JString s) = VString s"
| "jsval_object (JStrings ss) = VArray (map VString ss)"
| "jsval_object (JContentTypes cts) = VArray (map (\<lambda>ct. VString (ContentType_value ct)) cts)"

definition output_object :: "JobOutput \<Rightarrow> js" where
  "output_object out =
     VObject [(''id'', VString (output_id out)),
              (''content_type'', VString (ContentType_value (content_type out))),
              (''content'', (case content out of
                               Undefined \<Rightarrow> VUndefined | Null \<Rightarrow> VNull | Str s \<Rightarrow> VString s)),
              (''file_path'', nullable (file_path out)),
              (''created_at'', VString (output_created_at out)),
              (''updated_at'', VString (output_updated_at out))]"

definition job_object :: "Job \<Rightarrow> js" where
  "job_object j =
     VObject [(''id'', VString (job_id j)),
              (''title'', VString (title j)),
              (''status'', VString (JobStatus_value (status j))),
              (''created_at'', VString (created_at j)),
              (''updated_at'', VString (updated_at j)),
              (''completed_at'', nullable (completed_at j)),
              (''error_message'', nullable (error_message j)),
              (''job_metadata'', VObject (map (\<lambda>kv. (fst kv, jsval_object (snd kv))) (job_metadata j))),
              (''outputs'', VArray (map output_object (outputs j)))]"

text \<open>
  The query library (TanStack Query) is not among the sources. The sources are written
  against its version 5: \<open>NewContent.tsx\<close> reads \<open>submitContent.isPending\<close>, which a
  mutation has from version 5 on. In version 5 the option \<open>refetchInterval\<close>, when it is
  a function, is called with the query, not with the fetched data. A query has the
  properties \<open>queryKey\<close>, \<open>queryHash\<close> and \<open>state\<close> (further ones, among them
  \<open>options\<close> and \<open>observers\<close>, are left out; none of them is named \<open>status\<close>); the
  fetched data and the status of the query itself (\<open>pending\<close>, \<open>error\<close> or \<open>success\<close>)
  are the properties \<open>data\<close> and \<open>status\<close> of \<open>state\<close> (the fields \<open>state_data\<close> and
  \<open>query_status\<close>).
\<close>

record QueryState =
  state_data :: "Job option"
  query_status :: string
  fetchStatus :: string

record Query =
  queryKey :: "string list"
  queryHash :: string
  state :: QueryState

definition Query_object :: "Query \<Rightarrow> js" where
  "Query_object q =
     VObject [(''queryKey'', VArray (map VString (queryKey q))),
              (''queryHash'', VString (queryHash q)),
              (''state'',
                VObject [(''data'', (case state_data (state q) of
                                      None \<Rightarrow> VUndefined | Some j \<Rightarrow> job_object j)),
                         (''status'', VString (query_status (state q))),
                         (''fetchStatus'', VString (fetchStatus (state q)))])]"

text \<open>
  \<open>refetchInterval\<close> of \<open>useJobs.getJob\<close>, on the value it is called with, which the
  source names \<open>data\<close>; the result \<open>None\<close> is \<open>false\<close>, \<open>Some n\<close> is \<open>n\<close>
  milliseconds.
\<close>

definition refetchInterval :: "js \<Rightarrow> nat option" where
  "refetchInterval data_arg =
     (if optional_get data_arg ''status'' = VString ''pending''
         \<or> optional_get data_arg ''status'' = VString ''processing''
      then Some 5000 else None)"

text \<open>The interval the library computes for the query of a job: the option applied to the
  query.\<close>

definition useQuery_refetchInterval :: "Query \<Rightarrow> nat option" where
  "useQuery_refetchInterval q = refetchInterval (Query_object q)"

text \<open>
  The auto-refresh effect of \<open>JobDetail\<close>: the period of the interval timer it installs,
  \<open>None\<close> when it installs none (\<open>intervalId\<close> stays \<open>null\<close>).
\<close>

definition autoRefresh :: "Job option \<Rightarrow> nat option" where
  "autoRefresh job =
     (case job of
        None \<Rightarrow> None
      | Some j \<Rightarrow> (if status j = PENDING \<or> status j = PROCESSING then Some 5000 else None))"

section \<open>String operations of the JavaScript library\<close>

text \<open>
  \<open>s.indexOf(t)\<close>: the position of the leftmost occurrence of \<open>t\<close> in \<open>s\<close>; \<open>None\<close>
  is the result \<open>-1\<close>. \<open>s.includes(t)\<close> (here \<open>includes_str\<close>) and \<open>s.startsWith(t)\<close> follow.
\<close>

fun indexOf :: "string \<Rightarrow> string \<Rightarrow> nat option" where
  "indexOf [] t = (if t = [] then Some 0 else None)"
| "indexOf (c # s) t =
     (if prefix t (c # s) then Some 0 else map_option Suc (indexOf s t))"

definition includes_str :: "string \<Rightarrow> string \<Rightarrow> bool" where
  "includes_str s t = (indexOf s t \<noteq> None)"

definition startsWith :: "string \<Rightarrow> string \<Rightarrow> bool" where
  "startsWith s t = prefix t s"

text \<open>\<open>s.split(sep)\<close> for a one-character separator; the result is never empty, so
  \<open>pop()\<close> is its last element.\<close>

fun split :: "char \<Rightarrow> string \<Rightarrow> string list" where
  "split sep [] = [[]]"
| "split sep (c # s) =
     (if c = sep then [] # split sep s
      else (case split sep s of [] \<Rightarrow> [[c]] | x # xs \<Rightarrow> (c # x) # xs))"

definition pop :: "string list \<Rightarrow> string" where
  "pop xs = last xs"



text \<open>\<open>s.trim()\<close>: the white space of ASCII (tab, line feed, vertical tab, form feed,
  carriage return, space) is removed at both ends.\<close>

definition isWhiteSpace :: "char \<Rightarrow> bool" where
  "isWhiteSpace c = ((9 \<le> (of_char c :: nat) \<and> (of_char c :: nat) \<le> 13) \<or> c = CHR '' '')"

definition trim :: "string \<Rightarrow> string" where
  "trim s = rev (dropWhile isWhiteSpace (rev (dropWhile isWhiteSpace s)))"


section \<open>Storage URLs of an image (pages/JobDetail.tsx)\<close>

text \<open>
  \<open>api.defaults.baseURL\<close> (services/api.ts): the environment variable \<open>VITE_API_URL\<close>
  (\<open>None\<close> when it is not set) or, when that is empty or missing, the default.
\<close>

definition api_baseURL :: "string option \<Rightarrow> string" where
  "api_baseURL VITE_API_URL =
     (case VITE_API_URL of
        None \<Rightarrow> ''http://localhost:8001/api''
      | Some u \<Rightarrow> (if u = [] then ''http://localhost:8001/api'' else u))"

definition serverBaseUrl :: "string option \<Rightarrow> string" where
  "serverBaseUrl VITE_API_URL =
     (let baseUrl = (if api_baseURL VITE_API_URL = [] then ''http://localhost:8001/api''
                     else api_baseURL VITE_API_URL)
      in if includes_str baseUrl ''/api''
         then (case indexOf baseUrl ''/api'' of Some i \<Rightarrow> take i baseUrl | None \<Rightarrow> baseUrl)
         else baseUrl)"

definition normalizedPath :: "string \<Rightarrow> string" where
  "normalizedPath filePath =
     (let p0 = filePath;
          p1 = (if includes_str p0 ''storage/''
                then (case indexOf p0 ''storage/'' of Some i \<Rightarrow> drop (i + 8) p0 | None \<Rightarrow> p0)
                else p0)
      in if startsWith p1 ''/'' then drop 1 p1 else p1)"

definition getBaseStorageUrls :: "string option \<Rightarrow> string \<Rightarrow> string list" where
  "getBaseStorageUrls VITE_API_URL filePath =
     (if filePath = [] then []
      else if startsWith filePath ''http://'' \<or> startsWith filePath ''https://''
      then [filePath]
      else (let server = serverBaseUrl VITE_API_URL;
                np = normalizedPath filePath
            in [server @ ''/storage/'' @ np,
                server @ ''/storage/twitter_images/'' @ np,
                server @ ''/storage/instagram_images/'' @ np,
                server @ ''/storage/linkedin_images/'' @ np,
                server @ ''/storage/facebook_images/'' @ np,
                server @ ''/storage/thumbnails/'' @ np,
                server @ ''/storage/twitter_images/'' @ pop (split CHR ''/'' np),
                server @ ''/storage/instagram_images/'' @ pop (split CHR ''/'' np),
                server @ ''/storage/linkedin_images/'' @ pop (split CHR ''/'' np),
                server @ ''/storage/facebook_images/'' @ pop (split CHR ''/'' np),
                server @ ''/storage/thumbnails/'' @ pop (split CHR ''/'' np)]))"

section \<open>The job list (pages/JobList.tsx)\<close>








section \<open>Editing an output on the job page (pages/JobDetail.tsx)\<close>

text \<open>
  A request sent through the \<open>api\<close> instance of axios: its method and its path below
  the base URL.
\<close>

datatype http_method = GET | POST

type_synonym request = "http_method \<times> string"

text \<open>
  The state of the job page: the job object held by the query (\<open>None\<close> while there is
  none), the two editing dictionaries of the component, and the requests the page has
  sent to the backend so far.
\<close>

record JobDetail_state =
  job :: "Job option"
  editingContent :: "string \<rightharpoonup> bool"
  editedContent :: "string \<rightharpoonup> string"
  requests :: "request list"

text \<open>\<open>contentAPI.getJob\<close>, the query function behind \<open>refetch\<close>: it sends a GET and the
  response \<open>data\<close> becomes the job held.\<close>

definition getJob :: "JobDetail_state \<Rightarrow> string \<Rightarrow> Job \<Rightarrow> JobDetail_state" where
  "getJob st jobId data =
     st\<lparr>requests := requests st @ [(GET, ''/jobs/'' @ jobId)], job := Some data\<rparr>"

definition handleStartEditing :: "JobDetail_state \<Rightarrow> string \<Rightarrow> string \<Rightarrow> JobDetail_state" where
  "handleStartEditing st outputId c =
     st\<lparr>editingContent := (editingContent st)(outputId \<mapsto> True),
        editedContent := (editedContent st)(outputId \<mapsto> c)\<rparr>"

definition handleCancelEditing :: "JobDetail_state \<Rightarrow> string \<Rightarrow> JobDetail_state" where
  "handleCancelEditing st outputId =
     st\<lparr>editingContent := (editingContent st)(outputId \<mapsto> False)\<rparr>"

definition handleContentChange :: "JobDetail_state \<Rightarrow> string \<Rightarrow> string \<Rightarrow> JobDetail_state" where
  "handleContentChange st outputId newContent =
     st\<lparr>editedContent := (editedContent st)(outputId \<mapsto> newContent)\<rparr>"

text \<open>\<open>editedContent[outputId]\<close>: the edited text, \<open>undefined\<close> for an id that was never
  edited.\<close>

definition edited :: "JobDetail_state \<Rightarrow> string \<Rightarrow> jsstring" where
  "edited st outputId = (case editedContent st outputId of None \<Rightarrow> Undefined | Some s \<Rightarrow> Str s)"

definition handleSaveEditing :: "JobDetail_state \<Rightarrow> string \<Rightarrow> JobDetail_state" where
  "handleSaveEditing st outputId =
     (let st1 = st\<lparr>editingContent := (editingContent st)(outputId \<mapsto> False)\<rparr>
      in case job st of
           None \<Rightarrow> st1
         | Some j \<Rightarrow>
             (let updatedOutputs =
                    map (\<lambda>output. if output_id output = outputId
                                   then output\<lparr>content := edited st outputId\<rparr>
                                   else output) (outputs j)
              in st1\<lparr>job := Some (j\<lparr>outputs := updatedOutputs\<rparr>)\<rparr>))"

section \<open>The submission form (pages/NewContent.tsx)\<close>

text \<open>\<open>{...m}\<close> for an optional object: \<open>undefined\<close> spreads as the empty object.\<close>

definition obj_of :: "jsobj option \<Rightarrow> jsobj" where
  "obj_of m = (case m of None \<Rightarrow> [] | Some obj \<Rightarrow> obj)"

text \<open>\<open>metadata?.hashtags\<close>: \<open>None\<close> is \<open>undefined\<close>.\<close>

definition hashtags_of :: "jsobj option \<Rightarrow> string list option" where
  "hashtags_of m =
     (case map_of (obj_of m) ''hashtags'' of Some (JStrings hs) \<Rightarrow> Some hs | _ \<Rightarrow> None)"

record NewContent_state =
  formData :: ContentSubmissionForm
  hashtag :: string
  error :: string

definition NewContent_initial :: NewContent_state where
  "NewContent_initial =
     \<lparr> formData =
         \<lparr> form_title = [], form_content = [], form_content_types = [],
           metadata = Some [(''tone'', JString ''professional''),
                            (''hashtags'', JStrings []),
                            (''style'', JString ''modern'')] \<rparr>,
       hashtag = [], error = [] \<rparr>"

definition handleContentTypeChange :: "NewContent_state \<Rightarrow> ContentType \<Rightarrow> bool \<Rightarrow> NewContent_state" where
  "handleContentTypeChange st v checked =
     st\<lparr>formData := (formData st)\<lparr>form_content_types :=
        (if checked then form_content_types (formData st) @ [v]
         else filter (\<lambda>type. type \<noteq> v) (form_content_types (formData st)))\<rparr>\<rparr>"

definition handleToneChange :: "NewContent_state \<Rightarrow> string \<Rightarrow> NewContent_state" where
  "handleToneChange st v =
     st\<lparr>formData := (formData st)\<lparr>metadata :=
        Some (AList.update ''tone'' (JString v) (obj_of (metadata (formData st))))\<rparr>\<rparr>"

definition handleStyleChange :: "NewContent_state \<Rightarrow> string \<Rightarrow> NewContent_state" where
  "handleStyleChange st v =
     st\<lparr>formData := (formData st)\<lparr>metadata :=
        Some (AList.update ''style'' (JString v) (obj_of (metadata (formData st))))\<rparr>\<rparr>"

definition handleAddHashtag :: "NewContent_state \<Rightarrow> NewContent_state" where
  "handleAddHashtag st =
     (if trim (hashtag st) \<noteq> []
         \<and> \<not> (case hashtags_of (metadata (formData st)) of
                 None \<Rightarrow> False
               | Some hs \<Rightarrow> trim (hashtag st) \<in> set hs)
      then st\<lparr>formData := (formData st)\<lparr>metadata :=
                Some (AList.update ''hashtags''
                  (JStrings ((case hashtags_of (metadata (formData st)) of
                                None \<Rightarrow> [] | Some hs \<Rightarrow> hs) @ [trim (hashtag st)]))
                  (obj_of (metadata (formData st))))\<rparr>,
              hashtag := []\<rparr>
      else st)"

definition handleRemoveHashtag :: "NewContent_state \<Rightarrow> string \<Rightarrow> NewContent_state" where
  "handleRemoveHashtag st tag =
     st\<lparr>formData := (formData st)\<lparr>metadata :=
        Some (AList.update ''hashtags''
          (JStrings (case hashtags_of (metadata (formData st)) of
                       None \<Rightarrow> [] | Some hs \<Rightarrow> filter (\<lambda>t. t \<noteq> tag) hs))
          (obj_of (metadata (formData st))))\<rparr>\<rparr>"

text \<open>What the user can do on the form before submitting, and the handler of each.\<close>

datatype NewContent_event =
    SetTitle string
  | SetContent string
  | ContentTypeChange ContentType bool
  | ToneChange string
  | StyleChange string
  | SetHashtag string
  | AddHashtag
  | RemoveHashtag string

fun handle :: "NewContent_state \<Rightarrow> NewContent_event \<Rightarrow> NewContent_state" where
  "handle st (SetTitle v) = st\<lparr>formData := (formData st)\<lparr>form_title := v\<rparr>\<rparr>"
| "handle st (SetContent v) = st\<lparr>formData := (formData st)\<lparr>form_content := v\<rparr>\<rparr>"
| "handle st (ContentTypeChange v checked) = handleContentTypeChange st v checked"
| "handle st (ToneChange v) = handleToneChange st v"
| "handle st (StyleChange v) = handleStyleChange st v"
| "handle st (SetHashtag v) = st\<lparr>hashtag := v\<rparr>"
| "handle st AddHashtag = handleAddHashtag st"
| "handle st (RemoveHashtag tag) = handleRemoveHashtag st tag"

text \<open>
  \<open>handleSubmit\<close>: the three checks, in order; \<open>Inl\<close> is the error message they set,
  \<open>Inr\<close> the form data handed to \<open>submitContent\<close> (the body of \<open>POST /content\<close>).
\<close>

definition handleSubmit :: "NewContent_state \<Rightarrow> string + ContentSubmissionForm" where
  "handleSubmit st =
     (if trim (form_title (formData st)) = [] then Inl ''Title is required''
      else if trim (form_content (formData st)) = [] then Inl ''Content is required''
      else if length (form_content_types (formData st)) = 0
      then Inl ''Please select at least one platform''
      else Inr (formData st))"

section \<open>The Orchestrator\<close>

text \<open>
  Modelled from the spec: what a generator returns on success (spec 3, Output), inline
  text or a storage locator. The generators are not among the sources.
\<close>

datatype generated = InlineText string | Locator string

text \<open>
  Modelled from the spec: the collaborators of one Orchestrator call (spec 4.1, 4.2).
  \<open>generate\<close> is the outcome of the generator of a content type on the job's source,
  \<open>Inl\<close> with the cause when every provider failed; \<open>new_output_id\<close> is the identity
  the store gives a new Output; \<open>now\<close> is the clock.
\<close>

record orchestrator_env =
  generate :: "ContentType \<Rightarrow> string + generated"
  new_output_id :: "ContentType \<Rightarrow> string"
  now :: string

text \<open>
  Modelled from the spec: a successful generation appends one Output, with either the
  inline text or the locator, and updates \<open>updated_at\<close> (spec 3 and 4.1).
\<close>

definition appendOutput :: "orchestrator_env \<Rightarrow> Job \<Rightarrow> ContentType \<Rightarrow> generated \<Rightarrow> Job" where
  "appendOutput env j ct g =
     j\<lparr>outputs := outputs j @
          [\<lparr> output_id = new_output_id env ct,
             content_type = ct,
             content = (case g of InlineText s \<Rightarrow> Str s | Locator l \<Rightarrow> Null),
             file_path = (case g of InlineText s \<Rightarrow> None | Locator l \<Rightarrow> Some l),
             output_created_at = now env,
             output_updated_at = now env \<rparr>],
       updated_at := now env\<rparr>"

text \<open>
  Modelled from the spec: the aggregated error message lists which content types failed
  and why (spec 4.1). The spec fixes no layout; the entries are joined by \<open>; \<close>, and
  \<open>join\<close> is that joining.
\<close>

fun join :: "string \<Rightarrow> string list \<Rightarrow> string" where
  "join sep [] = []"
| "join sep [x] = x"
| "join sep (x # y # ys) = x @ sep @ join sep (y # ys)"

text \<open>Modelled from the spec: one entry of the aggregated message, a failed content type
  and why it failed (spec 4.1).\<close>

definition failure_entry :: "ContentType \<times> string \<Rightarrow> string" where
  "failure_entry f = ContentType_value (fst f) @ '': '' @ snd f"

text \<open>Modelled from the spec: the aggregated error message of a job whose attempts all
  failed (spec 4.1).\<close>

definition aggregate :: "(ContentType \<times> string) list \<Rightarrow> string" where
  "aggregate fails = join ''; '' (map failure_entry fails)"

text \<open>
  Modelled from the spec: the attempts of one call (spec 4.1). Every requested content
  type not yet present as an Output is generated; a success appends an Output, a failure
  is recorded with its cause and does not abort the job.
\<close>

fun attempt_all ::
  "orchestrator_env \<Rightarrow> ContentType list \<Rightarrow> Job \<times> (ContentType \<times> string) list
     \<Rightarrow> Job \<times> (ContentType \<times> string) list" where
  "attempt_all env [] acc = acc"
| "attempt_all env (ct # cts) (j, fails) =
     attempt_all env cts
       (if ct \<in> set (map content_type (outputs j)) then (j, fails)
        else (case generate env ct of
                Inr g \<Rightarrow> (appendOutput env j ct g, fails)
              | Inl cause \<Rightarrow> (j\<lparr>updated_at := now env\<rparr>, fails @ [(ct, cause)])))"

text \<open>
  Modelled from the spec: the Orchestrator (spec 4.1). A job in a terminal status is left
  as it is. Otherwise the job goes to PROCESSING, every requested type is attempted, and
  the job is marked COMPLETED if at least one Output was produced, FAILED with the
  aggregated error message if none was; the terminal transition sets \<open>completed_at\<close>.
\<close>

definition orchestrate :: "orchestrator_env \<Rightarrow> Job \<Rightarrow> Job" where
  "orchestrate env j =
     (if status j = COMPLETED \<or> status j = FAILED then j
      else (case attempt_all env (content_types j) (j\<lparr>status := PROCESSING\<rparr>, []) of
              (j', fails) \<Rightarrow>
                if outputs j' \<noteq> []
                then j'\<lparr>status := COMPLETED, completed_at := Some (now env),
                        updated_at := now env\<rparr>
                else j'\<lparr>status := FAILED, error_message := Some (aggregate fails),
                        completed_at := Some (now env), updated_at := now env\<rparr>))"

section \<open>Predicates of the properties\<close>


text \<open>The image content types, as \<open>createMockOutput\<close> tells them apart.\<close>

definition isImageType :: "ContentType \<Rightarrow> bool" where
  "isImageType ct = (ct = THUMBNAIL \<or> ct = TWITTER_IMAGE \<or> ct = INSTAGRAM_IMAGE)"

text \<open>
  Exactly one payload field of an output is filled: an image type has a non-empty file
  locator and \<open>null\<close> content, a text type has non-empty content and a \<open>null\<close> locator.
\<close>

definition payload_exclusive :: "JobOutput \<Rightarrow> bool" where
  "payload_exclusive out =
     (if isImageType (content_type out)
      then content out = Null \<and> file_path out \<noteq> None \<and> file_path out \<noteq> Some []
      else file_path out = None \<and> content out \<noteq> Null \<and> content out \<noteq> Undefined
           \<and> content out \<noteq> Str [])"

text \<open>The number of outputs of a job that carry a given content type.\<close>

definition outputs_of_type :: "Job \<Rightarrow> ContentType \<Rightarrow> nat" where
  "outputs_of_type j ct = length (filter (\<lambda>out. content_type out = ct) (outputs j))"

text \<open>The options of the submission form: the three keys in order, each with a value of its
  type.\<close>

definition options_shape :: "jsobj option \<Rightarrow> bool" where
  "options_shape m =
     (case m of
        Some [(k1, JString t), (k2, JStrings hs), (k3, JString sty)] \<Rightarrow>
          k1 = ''tone'' \<and> k2 = ''hashtags'' \<and> k3 = ''style''
      | _ \<Rightarrow> False)"

text \<open>The recorded failure of a content type: the type and the cause its generator gave.\<close>

abbreviation failure_of :: "orchestrator_env \<Rightarrow> ContentType \<Rightarrow> ContentType \<times> string" where
  "failure_of env ct \<equiv> (ct, projl (generate env ct))"

section \<open>Example inputs\<close>

text \<open>Draws of \<open>createMockJob\<close> and the mock jobs they give, used as concrete inputs.\<close>

abbreviation example_output_draw :: "nat \<Rightarrow> string \<times> string \<times> string" where
  "example_output_draw \<equiv>
     (\<lambda>i. (if i = 0 then ''a'' else if i = 1 then ''b'' else ''c'', ''2024-01-02'', ''2024-01-03''))"

abbreviation draws_completed_two :: draws where
  "draws_completed_two \<equiv>
     \<lparr> draw_status = 0,
       draw_shuffled = [FACEBOOK, TWITTER, INSTAGRAM, THUMBNAIL, LINKEDIN],
       draw_count = 1,
       draw_created = ''2024-01-01'', draw_updated = ''2024-01-02'',
       draw_completed = ''2024-01-03'',
       draw_output = example_output_draw \<rparr>"

abbreviation completed_two_types :: Job where
  "completed_two_types \<equiv> createMockJob draws_completed_two ''job-1''"

abbreviation completed_thumbnail_only :: Job where
  "completed_thumbnail_only \<equiv>
     createMockJob
       \<lparr> draw_status = 0,
         draw_shuffled = [THUMBNAIL, TWITTER, INSTAGRAM, LINKEDIN, FACEBOOK],
         draw_count = 0,
         draw_created = ''2024-01-01'', draw_updated = ''2024-01-02'',
         draw_completed = ''2024-01-03'',
         draw_output = example_output_draw \<rparr>
       ''job-1''"

abbreviation failed_mock_job :: Job where
  "failed_mock_job \<equiv>
     createMockJob
       \<lparr> draw_status = 3,
         draw_shuffled = [TWITTER, INSTAGRAM, LINKEDIN, FACEBOOK, THUMBNAIL],
         draw_count = 0,
         draw_created = ''2024-01-01'', draw_updated = ''2024-01-02'',
         draw_completed = ''2024-01-03'',
         draw_output = example_output_draw \<rparr>
       ''job-1''"

abbreviation new_mock_job :: Job where
  "new_mock_job \<equiv> fst (createNewMockJob [] ''2024-01-01'' ''2024-01-01''
     \<lparr>form_title = ''Post'', form_content = ''Text'', form_content_types = [TWITTER],
      metadata = None\<rparr>)"

text \<open>The query of the job page once the new job has been fetched.\<close>

abbreviation pending_job_query :: Query where
  \<open>pending_job_query \<equiv>
     \<lparr> queryKey = [''job'', ''job-1''],
       queryHash = ''["job","job-1"]'',
       state = \<lparr> state_data = Some new_mock_job, query_status = ''success'',
                 fetchStatus = ''idle'' \<rparr> \<rparr>\<close>





text \<open>A job page that holds a mock job, with an edit of its second output under way.\<close>

abbreviation page_state :: JobDetail_state where
  "page_state \<equiv>
     \<lparr> job = Some completed_two_types,
       editingContent = [''output-b'' \<mapsto> True],
       editedContent = [''output-b'' \<mapsto> ''my own words''],
       requests = [(GET, ''/jobs/job-1'')] \<rparr>"

text \<open>Two generator outcomes, only the Twitter text succeeding and nothing succeeding, and a
  new job that requests a Twitter text and a thumbnail.\<close>

abbreviation env_text_only :: orchestrator_env where
  "env_text_only \<equiv>
     \<lparr> generate = (\<lambda>ct. if ct = TWITTER then Inr (InlineText ''1/ A thread'')
                         else Inl ''all providers failed''),
       new_output_id = (\<lambda>ct. ''out-'' @ ContentType_value ct),
       now = ''2024-01-04'' \<rparr>"

abbreviation env_all_fail :: orchestrator_env where
  "env_all_fail \<equiv>
     \<lparr> generate = (\<lambda>ct. Inl ''all providers failed''),
       new_output_id = (\<lambda>ct. ''out-'' @ ContentType_value ct),
       now = ''2024-01-04'' \<rparr>"

abbreviation new_job_two :: Job where
  "new_job_two \<equiv> fst (createNewMockJob [] ''2024-01-01'' ''2024-01-01''
     \<lparr>form_title = ''Post'', form_content = ''Text'', form_content_types = [TWITTER, THUMBNAIL],
      metadata = None\<rparr>)"

section \<open>Properties\<close>

text \<open>
  C6. A job made by \<open>createNewMockJob\<close> has status PENDING, no outputs, no error message
  and no completion time, whatever the submission and the jobs already held.
\<close>

theorem createNewMockJob_pending:
  "status (fst (createNewMockJob mockJobs now1 now2 data)) = PENDING
   \<and> outputs (fst (createNewMockJob mockJobs now1 now2 data)) = []
   \<and> error_message (fst (createNewMockJob mockJobs now1 now2 data)) = None
   \<and> completed_at (fst (createNewMockJob mockJobs now1 now2 data)) = None"
  by (simp add: createNewMockJob_def Let_def)

text \<open>
  C8. The refetch interval of the job query is false for every query, whatever job it
  holds and so also for a pending or processing job: the callback reads \<open>status\<close> off
  the query it is handed, which has no such property. Handed the job itself, the callback
  gives 5000 ms exactly for the status pending or processing, which is what its comment
  announces. The auto-refresh effect of the job page does install its 5000 ms timer
  exactly while the job is pending or processing, and none without a job.
\<close>

theorem refetchInterval_reads_query:
  "useQuery_refetchInterval q = None
   \<and> refetchInterval (job_object j)
       = (if status j = PENDING \<or> status j = PROCESSING then Some 5000 else None)
   \<and> autoRefresh (Some j)
       = (if status j = PENDING \<or> status j = PROCESSING then Some 5000 else None)
   \<and> autoRefresh None = None"
  by (cases "status j")
    (simp_all add: useQuery_refetchInterval_def refetchInterval_def Query_object_def
      job_object_def autoRefresh_def)

theorem refetchInterval_reads_query_witness:
  "status new_mock_job = PENDING
   \<and> useQuery_refetchInterval pending_job_query = None
   \<and> refetchInterval (job_object new_mock_job) = Some 5000
   \<and> autoRefresh (Some new_mock_job) = Some 5000"
proof -
  have p: "status new_mock_job = PENDING" by (simp add: createNewMockJob_def Let_def)
  from p refetchInterval_reads_query [of pending_job_query new_mock_job]
  show ?thesis by simp
qed

subsection \<open>Mock jobs\<close>

lemma content_type_mockOutput: "content_type (mockOutput d jid it) = snd it"
  by (simp add: mockOutput_def createMockOutput_def Let_def split: prod.splits)

lemma types_of_mockOutputs:
  "map (content_type \<circ> mockOutput d jid) (enumerate n cts) = cts"
proof -
  have "content_type \<circ> mockOutput d jid = snd"
    by (rule ext) (simp add: content_type_mockOutput)
  then show ?thesis by (simp add: map_snd_enumerate)
qed

lemma content_types_createMockJob:
  "content_types (createMockJob d jid) = randomContentTypes (draw_shuffled d) (draw_count d)"
  by (simp add: createMockJob_def Let_def content_types_def)

lemma types_of_createMockJob:
  "map content_type (outputs (createMockJob d jid)) =
     content_types (createMockJob d jid) @ [THUMBNAIL]"
  by (simp add: createMockJob_def Let_def content_types_def types_of_mockOutputs
      content_type_mockOutput)

lemma length_filter_count_list:
  "length (filter (\<lambda>x. f x = c) xs) = count_list (map f xs) c"
  by (induction xs) simp_all

lemma outputs_of_type_count:
  "outputs_of_type j ct = count_list (map content_type (outputs j)) ct"
  by (simp add: outputs_of_type_def length_filter_count_list)

lemma createMockOutput_payload: "payload_exclusive (createMockOutput r c u jid ct)"
  by (cases ct) (simp_all add: payload_exclusive_def isImageType_def createMockOutput_def)

text \<open>
  C4. Every output made by \<open>createMockOutput\<close>, and so every output of a mock job, has
  exactly one payload: a text type has non-empty inline content and a null file locator,
  an image type (thumbnail, twitter_image, instagram_image) has a non-empty file locator
  and null content.
\<close>

theorem createMockOutput_exclusive_payload:
  "payload_exclusive (createMockOutput r c u jid ct)
   \<and> (\<forall>out \<in> set (outputs (createMockJob d jid')). payload_exclusive out)"
  by (auto simp: createMockJob_def Let_def mockOutput_def createMockOutput_payload
      split: prod.splits)

theorem createMockOutput_exclusive_payload_witness:
  "payload_exclusive (createMockOutput ''abc'' ''2024-01-02'' ''2024-01-03'' ''job-1'' TWITTER)
   \<and> list_all payload_exclusive (outputs completed_two_types)
   \<and> map content_type (outputs completed_two_types) = [FACEBOOK, TWITTER, THUMBNAIL]"
  using createMockOutput_exclusive_payload
    [of "''abc''" "''2024-01-02''" "''2024-01-03''" "''job-1''" TWITTER
      draws_completed_two "''job-1''"]
  by (simp add: list_all_iff types_of_createMockJob content_types_createMockJob
      randomContentTypes_def)

lemma count_list_distinct_le1: "distinct xs \<Longrightarrow> count_list xs c \<le> 1"
  by (induction xs) (auto simp: count_list_0_iff)

lemma distinct_randomContentTypes:
  assumes "mset shuffled = mset allTypes"
  shows "distinct (randomContentTypes shuffled k)"
proof -
  have "distinct allTypes" by (simp add: allTypes_def)
  with assms have "distinct shuffled" by (metis mset_eq_imp_distinct_iff)
  then show ?thesis by (simp add: randomContentTypes_def)
qed

text \<open>
  C3, as the code has it. \<open>createMockJob\<close> makes one output for each requested content
  type, in order, and then always adds a thumbnail output: the outputs are one more than
  the requested types. The requested types are distinct (a slice of a shuffle of five
  distinct types), so every type other than thumbnail has at most one output, and when
  thumbnail was not requested every type has at most one.
\<close>

theorem mock_job_outputs_per_type:
  assumes "mset (draw_shuffled d) = mset allTypes"
  shows "map content_type (outputs (createMockJob d jid)) = content_types (createMockJob d jid) @ [THUMBNAIL]
    \<and> length (outputs (createMockJob d jid)) = length (content_types (createMockJob d jid)) + 1
    \<and> (\<forall>ct. ct \<noteq> THUMBNAIL \<longrightarrow> outputs_of_type (createMockJob d jid) ct \<le> 1)
    \<and> (THUMBNAIL \<notin> set (content_types (createMockJob d jid))
         \<longrightarrow> (\<forall>ct. outputs_of_type (createMockJob d jid) ct \<le> 1))"
proof -
  let ?J = "createMockJob d jid"
  have types: "map content_type (outputs ?J) = content_types ?J @ [THUMBNAIL]"
    by (rule types_of_createMockJob)
  have dist: "distinct (content_types ?J)"
    using assms by (simp add: content_types_createMockJob distinct_randomContentTypes)
  have len: "length (outputs ?J) = length (content_types ?J) + 1"
    using arg_cong [OF types, of length] by simp
  have cnt: "outputs_of_type ?J ct = count_list (content_types ?J) ct + (if ct = THUMBNAIL then 1 else 0)" for ct
    by (simp add: outputs_of_type_count types)
  have other: "outputs_of_type ?J ct \<le> 1" if "ct \<noteq> THUMBNAIL" for ct
    using that count_list_distinct_le1 [OF dist, of ct] by (simp add: cnt)
  have none: "outputs_of_type ?J ct \<le> 1" if "THUMBNAIL \<notin> set (content_types ?J)" for ct
    using that count_list_distinct_le1 [OF dist, of ct] by (auto simp: cnt count_list_0_iff)
  show ?thesis using types len other none by blast
qed

theorem mock_job_outputs_per_type_witness:
  "mset [FACEBOOK, TWITTER, INSTAGRAM, THUMBNAIL, LINKEDIN] = mset allTypes
   \<and> map content_type (outputs (completed_two_types)) = [FACEBOOK, TWITTER, THUMBNAIL]
   \<and> outputs_of_type (completed_two_types) THUMBNAIL \<le> 1"
proof -
  have h: "mset [FACEBOOK, TWITTER, INSTAGRAM, THUMBNAIL, LINKEDIN] = mset allTypes"
    by (simp add: allTypes_def)
  have c: "content_types (completed_two_types) = [FACEBOOK, TWITTER]"
    by (simp add: content_types_createMockJob randomContentTypes_def)
  show ?thesis
    using h c mock_job_outputs_per_type [of "draws_completed_two" "''job-1''"]
    by simp
qed

text \<open>
  The claim as stated fails on a completed mock job that requested the thumbnail alone:
  it holds two outputs, both thumbnails, for one requested type.
\<close>

theorem mock_job_outputs_counterexample:
  "status completed_thumbnail_only = COMPLETED
   \<and> content_types completed_thumbnail_only = [THUMBNAIL]
   \<and> \<not> length (outputs completed_thumbnail_only) \<le> length (content_types completed_thumbnail_only)
   \<and> \<not> outputs_of_type completed_thumbnail_only THUMBNAIL \<le> 1"
  by (simp add: createMockJob_def Let_def randomStatus_def statuses_def randomContentTypes_def
      content_types_def outputs_of_type_def content_type_mockOutput)

text \<open>
  C2, as the code has it. For every job the mock data builds, \<open>error_message\<close> is set
  exactly when the status is FAILED, and \<open>completed_at\<close> is set exactly when the status
  is COMPLETED; this holds for \<open>createMockJob\<close> and for \<open>createNewMockJob\<close>.
\<close>

theorem mock_job_error_and_completion:
  "(error_message (createMockJob d jid) \<noteq> None \<longleftrightarrow> status (createMockJob d jid) = FAILED)
   \<and> (completed_at (createMockJob d jid) \<noteq> None \<longleftrightarrow> status (createMockJob d jid) = COMPLETED)
   \<and> (error_message (fst (createNewMockJob mockJobs now1 now2 data)) \<noteq> None
        \<longleftrightarrow> status (fst (createNewMockJob mockJobs now1 now2 data)) = FAILED)
   \<and> (completed_at (fst (createNewMockJob mockJobs now1 now2 data)) \<noteq> None
        \<longleftrightarrow> status (fst (createNewMockJob mockJobs now1 now2 data)) = COMPLETED)"
  by (simp add: createMockJob_def createNewMockJob_def Let_def)

text \<open>
  The claim as stated fails on a mock job drawn as FAILED: its \<open>completed_at\<close> is null.
\<close>

theorem mock_failed_job_counterexample:
  "status failed_mock_job = FAILED
   \<and> completed_at failed_mock_job = None
   \<and> \<not> (completed_at failed_mock_job \<noteq> None
          \<longleftrightarrow> status failed_mock_job = COMPLETED \<or> status failed_mock_job = FAILED)"
  by (simp add: createMockJob_def Let_def randomStatus_def statuses_def)

subsection \<open>Storage URLs\<close>

lemma indexOf_None_iff: "indexOf s t = None \<longleftrightarrow> \<not> sublist t s"
  by (induction s) (auto simp: sublist_Cons_right)

lemma includes_str_iff: "includes_str s t \<longleftrightarrow> sublist t s"
  by (simp add: includes_str_def indexOf_None_iff)

lemma not_sublist_butlast: "t \<noteq> [] \<Longrightarrow> \<not> sublist t (butlast t)"
proof
  assume "t \<noteq> []" and "sublist t (butlast t)"
  then have "length t \<le> length (butlast t)" by (rule_tac sublist_length_le)
  with \<open>t \<noteq> []\<close> show False by (simp add: length_greater_0_conv [symmetric] del: length_greater_0_conv)
qed

lemma indexOf_Some_split:
  assumes "indexOf s t = Some i" and "t \<noteq> []"
  shows "\<exists>pre rest. s = pre @ t @ rest \<and> length pre = i \<and> \<not> sublist t (pre @ butlast t)"
  using assms
proof (induction s arbitrary: i)
  case Nil
  then show ?case by simp
next
  case (Cons c s)
  show ?case
  proof (cases "prefix t (c # s)")
    case True
    then obtain rest where "c # s = t @ rest" by (auto simp: prefix_def)
    moreover from True Cons.prems have "i = 0" by simp
    ultimately show ?thesis
      using not_sublist_butlast [OF \<open>t \<noteq> []\<close>] by (intro exI [of _ "[]"] exI [of _ rest]) simp
  next
    case False
    with Cons.prems obtain i' where i': "indexOf s t = Some i'" "i = Suc i'"
      by auto
    from Cons.IH [OF i'(1) \<open>t \<noteq> []\<close>]
    obtain pre rest where s: "s = pre @ t @ rest" "length pre = i'"
      and first: "\<not> sublist t (pre @ butlast t)" by blast
    have "\<not> prefix t (c # pre @ butlast t)"
    proof
      assume "prefix t (c # pre @ butlast t)"
      moreover have "prefix (c # pre @ butlast t) (c # s)"
        using \<open>t \<noteq> []\<close> by (simp add: s) (metis append_butlast_last_id prefixI append.assoc)
      ultimately have "prefix t (c # s)" by (rule prefix_order.trans)
      with False show False by simp
    qed
    with first have "\<not> sublist t ((c # pre) @ butlast t)"
      by (simp add: sublist_Cons_right)
    with s i'(2) show ?thesis
      by (intro exI [of _ "c # pre"] exI [of _ rest]) simp
  qed
qed

lemma split_nonempty: "split sep s \<noteq> []"
  by (induction s) (auto split: list.splits)

lemma split_no_sep: "sep \<notin> set s \<Longrightarrow> split sep s = [s]"
  by (induction s) auto

lemma length_split: "length (split sep s) = Suc (count_list s sep)"
  by (induction s) (auto split: list.splits)

lemma last_split_append: "last (split sep (a @ sep # b)) = last (split sep b)"
proof (induction a)
  case Nil
  then show ?case by (simp add: split_nonempty)
next
  case (Cons c a)
  have "2 \<le> length (split sep (a @ sep # b))" by (simp add: length_split)
  then obtain x y ys where "split sep (a @ sep # b) = x # y # ys"
    by (cases "split sep (a @ sep # b)"; cases "tl (split sep (a @ sep # b))") auto
  with Cons show ?case by (simp add: split_nonempty)
qed

lemma rev_takeWhile_all: "sep \<notin> set b \<Longrightarrow> rev (takeWhile (\<lambda>c. c \<noteq> sep) (rev b)) = b"
proof -
  assume "sep \<notin> set b"
  then have "takeWhile (\<lambda>c. c \<noteq> sep) (rev b) = rev b"
    by (auto simp: takeWhile_eq_all_conv)
  then show ?thesis by (simp only: rev_rev_ident)
qed

lemma pop_split: "pop (split sep s) = rev (takeWhile (\<lambda>c. c \<noteq> sep) (rev s))"
proof (cases "sep \<in> set s")
  case False
  then show ?thesis by (simp add: pop_def split_no_sep rev_takeWhile_all)
next
  case True
  then obtain a b where s: "s = a @ sep # b" and b: "sep \<notin> set b"
    by (auto dest: split_list_last)
  have "takeWhile (\<lambda>c. c \<noteq> sep) (rev s) = takeWhile (\<lambda>c. c \<noteq> sep) (rev b)"
    by (simp add: s takeWhile_tail)
  with b show ?thesis by (simp add: pop_def s last_split_append split_no_sep rev_takeWhile_all)
qed

lemma normalizedPath_spec:
  "\<exists>rest. (if sublist ''storage/'' p
            then (\<exists>pre. p = pre @ ''storage/'' @ rest \<and> \<not> sublist ''storage/'' (pre @ ''storage''))
            else rest = p)
     \<and> normalizedPath p = (if prefix ''/'' rest then tl rest else rest)"
proof (cases "sublist ''storage/'' p")
  case False
  then show ?thesis
    by (simp add: normalizedPath_def includes_str_iff startsWith_def drop_Suc)
next
  case True
  then obtain i where i: "indexOf p ''storage/'' = Some i"
    using indexOf_None_iff [of p "''storage/''"] by auto
  from indexOf_Some_split [OF i]
  obtain pre rest where p: "p = pre @ ''storage/'' @ rest" "length pre = i"
    and first: "\<not> sublist ''storage/'' (pre @ butlast ''storage/'')" by auto
  have "drop (i + 8) p = rest" using p by simp
  with True i have "normalizedPath p = (if prefix ''/'' rest then tl rest else rest)"
    by (simp add: normalizedPath_def includes_str_iff startsWith_def drop_Suc)
  moreover from first have "\<not> sublist ''storage/'' (pre @ ''storage'')" by simp
  ultimately show ?thesis using True p(1) by auto
qed

text \<open>
  C10. \<open>getBaseStorageUrls\<close> returns the empty list for the empty path, and the path
  alone when it starts with \<open>http://\<close> or \<open>https://\<close>. For every other path it returns
  eleven URLs in a fixed order. They are built from \<open>np\<close>, the path after its leftmost
  \<open>storage/\<close> (the whole path when it has none) without one leading slash: the storage
  root and the five folders followed by \<open>np\<close>, then the five folders followed by the
  part of \<open>np\<close> after its last slash.
\<close>

theorem getBaseStorageUrls_candidates:
  "getBaseStorageUrls env [] = []
   \<and> (prefix ''http://'' p \<or> prefix ''https://'' p \<longrightarrow> getBaseStorageUrls env p = [p])
   \<and> (p \<noteq> [] \<and> \<not> prefix ''http://'' p \<and> \<not> prefix ''https://'' p \<longrightarrow>
        length (getBaseStorageUrls env p) = 11
        \<and> (\<exists>rest np name.
             (if sublist ''storage/'' p
              then (\<exists>pre. p = pre @ ''storage/'' @ rest
                      \<and> \<not> sublist ''storage/'' (pre @ ''storage''))
              else rest = p)
             \<and> np = (if prefix ''/'' rest then tl rest else rest)
             \<and> name = rev (takeWhile (\<lambda>c. c \<noteq> CHR ''/'') (rev np))
             \<and> getBaseStorageUrls env p =
                 map (\<lambda>tail. serverBaseUrl env @ ''/storage/'' @ tail)
                   [np,
                    ''twitter_images/'' @ np, ''instagram_images/'' @ np,
                    ''linkedin_images/'' @ np, ''facebook_images/'' @ np,
                    ''thumbnails/'' @ np,
                    ''twitter_images/'' @ name, ''instagram_images/'' @ name,
                    ''linkedin_images/'' @ name, ''facebook_images/'' @ name,
                    ''thumbnails/'' @ name]))"
proof (intro conjI impI)
  show "getBaseStorageUrls env [] = []" by (simp add: getBaseStorageUrls_def)
next
  assume "prefix ''http://'' p \<or> prefix ''https://'' p"
  then show "getBaseStorageUrls env p = [p]"
    by (auto simp: getBaseStorageUrls_def startsWith_def)
next
  assume h: "p \<noteq> [] \<and> \<not> prefix ''http://'' p \<and> \<not> prefix ''https://'' p"
  then show "length (getBaseStorageUrls env p) = 11"
    by (simp add: getBaseStorageUrls_def startsWith_def Let_def)
next
  assume h: "p \<noteq> [] \<and> \<not> prefix ''http://'' p \<and> \<not> prefix ''https://'' p"
  from normalizedPath_spec [of p] obtain rest where
    rest: "if sublist ''storage/'' p
           then (\<exists>pre. p = pre @ ''storage/'' @ rest \<and> \<not> sublist ''storage/'' (pre @ ''storage''))
           else rest = p"
    and np: "normalizedPath p = (if prefix ''/'' rest then tl rest else rest)" by blast
  have urls: "getBaseStorageUrls env p =
      map (\<lambda>tail. serverBaseUrl env @ ''/storage/'' @ tail)
        [normalizedPath p,
         ''twitter_images/'' @ normalizedPath p, ''instagram_images/'' @ normalizedPath p,
         ''linkedin_images/'' @ normalizedPath p, ''facebook_images/'' @ normalizedPath p,
         ''thumbnails/'' @ normalizedPath p,
         ''twitter_images/'' @ pop (split CHR ''/'' (normalizedPath p)),
         ''instagram_images/'' @ pop (split CHR ''/'' (normalizedPath p)),
         ''linkedin_images/'' @ pop (split CHR ''/'' (normalizedPath p)),
         ''facebook_images/'' @ pop (split CHR ''/'' (normalizedPath p)),
         ''thumbnails/'' @ pop (split CHR ''/'' (normalizedPath p))]"
    using h by (simp add: getBaseStorageUrls_def startsWith_def Let_def)
  show "\<exists>rest np name.
             (if sublist ''storage/'' p
              then (\<exists>pre. p = pre @ ''storage/'' @ rest
                      \<and> \<not> sublist ''storage/'' (pre @ ''storage''))
              else rest = p)
             \<and> np = (if prefix ''/'' rest then tl rest else rest)
             \<and> name = rev (takeWhile (\<lambda>c. c \<noteq> CHR ''/'') (rev np))
             \<and> getBaseStorageUrls env p =
                 map (\<lambda>tail. serverBaseUrl env @ ''/storage/'' @ tail)
                   [np,
                    ''twitter_images/'' @ np, ''instagram_images/'' @ np,
                    ''linkedin_images/'' @ np, ''facebook_images/'' @ np,
                    ''thumbnails/'' @ np,
                    ''twitter_images/'' @ name, ''instagram_images/'' @ name,
                    ''linkedin_images/'' @ name, ''facebook_images/'' @ name,
                    ''thumbnails/'' @ name]"
    apply (rule exI [of _ rest])
    apply (rule exI [of _ "normalizedPath p"])
    apply (rule exI [of _ "pop (split CHR ''/'' (normalizedPath p))"])
    apply (intro conjI)
       apply (rule rest)
      apply (rule np)
     apply (rule pop_split)
    apply (rule urls)
    done
qed

theorem getBaseStorageUrls_candidates_witness:
  "getBaseStorageUrls None [] = []
   \<and> getBaseStorageUrls None ''https://picsum.photos/seed/job-1/800/600''
        = [''https://picsum.photos/seed/job-1/800/600'']
   \<and> length (getBaseStorageUrls None ''/storage/thumbnails/sample_1.png'') = 11
   \<and> hd (getBaseStorageUrls None ''/storage/thumbnails/sample_1.png'')
        = ''http://localhost:8001/storage/thumbnails/sample_1.png''
   \<and> last (getBaseStorageUrls None ''/storage/thumbnails/sample_1.png'')
        = ''http://localhost:8001/storage/thumbnails/sample_1.png''"
proof -
  have a: "prefix ''http://'' ''https://picsum.photos/seed/job-1/800/600''
           \<or> prefix ''https://'' ''https://picsum.photos/seed/job-1/800/600''" by simp
  have b: "''/storage/thumbnails/sample_1.png'' \<noteq> []
           \<and> \<not> prefix ''http://'' ''/storage/thumbnails/sample_1.png''
           \<and> \<not> prefix ''https://'' ''/storage/thumbnails/sample_1.png''" by simp
  have n: "normalizedPath ''/storage/thumbnails/sample_1.png'' = ''thumbnails/sample_1.png''"
    by (simp add: normalizedPath_def includes_str_def startsWith_def)
  have s: "serverBaseUrl None = ''http://localhost:8001''"
    by (simp add: serverBaseUrl_def api_baseURL_def includes_str_def)
  have u: "hd (getBaseStorageUrls None ''/storage/thumbnails/sample_1.png'')
        = ''http://localhost:8001/storage/thumbnails/sample_1.png''
    \<and> last (getBaseStorageUrls None ''/storage/thumbnails/sample_1.png'')
        = ''http://localhost:8001/storage/thumbnails/sample_1.png''"
    by (simp add: getBaseStorageUrls_def startsWith_def n s pop_def Let_def)
  from a b u
    getBaseStorageUrls_candidates [of None "''https://picsum.photos/seed/job-1/800/600''"]
    getBaseStorageUrls_candidates [of None "''/storage/thumbnails/sample_1.png''"]
  show ?thesis by blast
qed


subsection \<open>The job list\<close>

















subsection \<open>Editing an output\<close>

text \<open>
  C7. Saving an edit sends no request to the backend and keeps the edited texts. Of the
  job held by the page it changes the outputs only: every other field of the job is as
  before, the outputs are as many as before, an output with another id is unchanged, and
  an output with the targeted id differs from the old one in its \<open>content\<close> alone, which
  becomes the edited text. Without a job, none appears.
\<close>

theorem handleSaveEditing_local:
  "requests (handleSaveEditing st outputId) = requests st
   \<and> editedContent (handleSaveEditing st outputId) = editedContent st
   \<and> (job st = None \<longrightarrow> job (handleSaveEditing st outputId) = None)
   \<and> (job st = Some j \<longrightarrow>
        (\<exists>j'. job (handleSaveEditing st outputId) = Some j'
           \<and> j' = j\<lparr>outputs := outputs j'\<rparr>
           \<and> length (outputs j') = length (outputs j)
           \<and> (\<forall>i < length (outputs j).
                 outputs j' ! i =
                   (if output_id (outputs j ! i) = outputId
                    then (outputs j ! i)\<lparr>content := edited st outputId\<rparr>
                    else outputs j ! i))))"
  by (cases "job st") (simp_all add: handleSaveEditing_def Let_def)

theorem handleSaveEditing_local_witness:
  "requests (handleSaveEditing page_state ''output-b'') = [(GET, ''/jobs/job-1'')]
   \<and> map content (outputs (the (job (handleSaveEditing page_state ''output-b''))))
       = [Str ''Mock content for facebook. This is a generated text for demonstration purposes.'',
          Str ''my own words'', Null]
   \<and> map output_id (outputs (the (job (handleSaveEditing page_state ''output-b''))))
       = [''output-a'', ''output-b'', ''output-c'']"
proof -
  have ev: "map content (outputs (the (job (handleSaveEditing page_state ''output-b''))))
       = [Str ''Mock content for facebook. This is a generated text for demonstration purposes.'',
          Str ''my own words'', Null]
     \<and> map output_id (outputs (the (job (handleSaveEditing page_state ''output-b''))))
       = [''output-a'', ''output-b'', ''output-c'']"
    by code_simp
  from ev handleSaveEditing_local [of page_state "''output-b''" completed_two_types]
  show ?thesis by simp
qed


subsection \<open>The submission form\<close>

lemma options_shape_iff:
  "options_shape m \<longleftrightarrow>
     (\<exists>t hs sty. m = Some [(''tone'', JString t), (''hashtags'', JStrings hs), (''style'', JString sty)])"
  by (auto simp: options_shape_def split: option.splits list.splits jsval.splits)

lemma options_shape_initial: "options_shape (metadata (formData NewContent_initial))"
  by (simp add: NewContent_initial_def options_shape_def)

lemma options_shape_handle:
  assumes "options_shape (metadata (formData st))"
  shows "options_shape (metadata (formData (handle st ev)))"
proof -
  from assms obtain t hs sty where
    m: "metadata (formData st) = Some [(''tone'', JString t), (''hashtags'', JStrings hs), (''style'', JString sty)]"
    by (auto simp: options_shape_iff)
  show ?thesis
    by (cases ev)
      (simp_all add: m options_shape_iff handleContentTypeChange_def handleToneChange_def
        handleStyleChange_def handleAddHashtag_def handleRemoveHashtag_def obj_of_def
        hashtags_of_def)
qed

lemma options_shape_reachable:
  "options_shape (metadata (formData st)) \<Longrightarrow> options_shape (metadata (formData (foldl handle st es)))"
  by (induction es arbitrary: st) (simp_all add: options_shape_handle)

lemma handleSubmit_metadata:
  "handleSubmit (st\<lparr>formData := (formData st)\<lparr>metadata := m\<rparr>\<rparr>) =
     (case handleSubmit st of Inl e \<Rightarrow> Inl e | Inr data \<Rightarrow> Inr (data\<lparr>metadata := m\<rparr>))"
  by (simp add: handleSubmit_def)

lemma content_types_new_job:
  assumes "options_shape (metadata data)"
  shows "content_types (fst (createNewMockJob jobs now1 now2 data)) = form_content_types data"
proof -
  from assms obtain t hs sty where
    m: "metadata data = Some [(''tone'', JString t), (''hashtags'', JStrings hs), (''style'', JString sty)]"
    by (auto simp: options_shape_iff)
  show ?thesis
    by (simp add: createNewMockJob_def Let_def content_types_def spread_def m)
qed

text \<open>
  C5, as the code has it. Whatever the user does on the form, the options it carries are
  an object with exactly the keys \<open>tone\<close>, \<open>hashtags\<close> and \<open>style\<close>, in this order: a
  string, a list of strings and a string. The options are advisory: replacing them by any
  others changes neither the verdict of the checks of \<open>handleSubmit\<close> nor the rest of the
  data submitted, and the content types requested of a job made from the form are those
  of the form.
\<close>

theorem form_options_advisory:
  "(\<exists>t hs sty. metadata (formData (foldl handle NewContent_initial es)) =
       Some [(''tone'', JString t), (''hashtags'', JStrings hs), (''style'', JString sty)])
   \<and> handleSubmit (st\<lparr>formData := (formData st)\<lparr>metadata := m\<rparr>\<rparr>) =
       (case handleSubmit st of Inl e \<Rightarrow> Inl e | Inr data \<Rightarrow> Inr (data\<lparr>metadata := m\<rparr>))
   \<and> content_types (fst (createNewMockJob jobs now1 now2 (formData (foldl handle NewContent_initial es))))
       = form_content_types (formData (foldl handle NewContent_initial es))"
  using options_shape_reachable [OF options_shape_initial, of es]
  by (simp add: handleSubmit_metadata content_types_new_job) (simp add: options_shape_iff)

theorem form_options_advisory_witness:
  "metadata (formData (foldl handle NewContent_initial
       [SetTitle ''Post'', ContentTypeChange LINKEDIN True, SetHashtag '' ai '', AddHashtag,
        ToneChange ''casual'', StyleChange ''bold''])) =
     Some [(''tone'', JString ''casual''), (''hashtags'', JStrings [''ai'']), (''style'', JString ''bold'')]
   \<and> handleSubmit (NewContent_initial\<lparr>formData := (formData NewContent_initial)\<lparr>metadata := None\<rparr>\<rparr>)
       = Inl ''Title is required''"
proof -
  have ev: "metadata (formData (foldl handle NewContent_initial
       [SetTitle ''Post'', ContentTypeChange LINKEDIN True, SetHashtag '' ai '', AddHashtag,
        ToneChange ''casual'', StyleChange ''bold''])) =
     Some [(''tone'', JString ''casual''), (''hashtags'', JStrings [''ai'']), (''style'', JString ''bold'')]"
    by code_simp
  have sub: "handleSubmit NewContent_initial = Inl ''Title is required''"
    by code_simp
  from ev sub form_options_advisory [where es = "[SetTitle ''Post'', ContentTypeChange LINKEDIN True,
        SetHashtag '' ai '', AddHashtag, ToneChange ''casual'', StyleChange ''bold'']"
      and st = NewContent_initial and m = None]
  show ?thesis by simp
qed

text \<open>
  The claim as stated fails on the form as it starts: its option keys are \<open>tone\<close>,
  \<open>hashtags\<close> and \<open>style\<close>, not \<open>tone\<close>, \<open>visualStyle\<close> and \<open>hashtags\<close>.
\<close>

theorem form_options_counterexample:
  "set (map fst (obj_of (metadata (formData NewContent_initial))))
     \<noteq> {''tone'', ''visualStyle'', ''hashtags''}"
proof
  assume "set (map fst (obj_of (metadata (formData NewContent_initial))))
     = {''tone'', ''visualStyle'', ''hashtags''}"
  moreover have "''style'' \<in> set (map fst (obj_of (metadata (formData NewContent_initial))))"
    by (simp add: NewContent_initial_def obj_of_def)
  ultimately have "''style'' \<in> {''tone'', ''visualStyle'', ''hashtags''}" by simp
  then show False by simp
qed

subsection \<open>The completion rule of the Orchestrator\<close>

lemma sublist_join: "x \<in> set xs \<Longrightarrow> sublist x (join sep xs)"
proof (induction sep xs rule: join.induct)
  case (1 sep)
  then show ?case by simp
next
  case (2 sep y)
  then show ?case by simp
next
  case (3 sep y z zs)
  show ?case
  proof (cases "x = y")
    case True
    then show ?thesis by (simp add: sublist_append_rightI)
  next
    case False
    with 3 have "sublist x (join sep (z # zs))" by simp
    then have "sublist x ((y @ sep) @ join sep (z # zs))" by (simp add: sublist_append)
    then show ?thesis by simp
  qed
qed

lemma attempt_all_outputs_empty:
  "outputs (fst (attempt_all env cts (j, fails))) = [] \<longleftrightarrow>
     outputs j = [] \<and> (\<forall>ct \<in> set cts. isl (generate env ct))"
proof (induction cts arbitrary: j fails)
  case Nil
  then show ?case by simp
next
  case (Cons ct cts)
  show ?case
  proof (cases "ct \<in> set (map content_type (outputs j))")
    case True
    then have "outputs j \<noteq> []" by auto
    with True show ?thesis by (simp add: Cons.IH)
  next
    case False
    then show ?thesis
      by (cases "generate env ct") (simp_all add: Cons.IH appendOutput_def)
  qed
qed

lemma attempt_all_failures:
  assumes "outputs j = []" and "\<forall>ct \<in> set cts. isl (generate env ct)"
  shows "snd (attempt_all env cts (j, fails)) = fails @ map (\<lambda>ct. (ct, projl (generate env ct))) cts"
  using assms
proof (induction cts arbitrary: j fails)
  case Nil
  then show ?case by simp
next
  case (Cons ct cts)
  from Cons.prems obtain cause where c: "generate env ct = Inl cause" by (auto simp: isl_def)
  with Cons.prems show ?case by (simp add: Cons.IH)
qed

lemma attempt_all_keeps_types:
  "set (map content_type (outputs j))
     \<subseteq> set (map content_type (outputs (fst (attempt_all env cts (j, fails)))))"
proof (induction cts arbitrary: j fails)
  case Nil
  then show ?case by simp
next
  case (Cons ct cts)
  show ?case
  proof (cases "ct \<in> set (map content_type (outputs j))")
    case True
    then show ?thesis using Cons.IH [of j fails] by simp
  next
    case False
    show ?thesis
    proof (cases "generate env ct")
      case (Inl cause)
      with False show ?thesis
        using Cons.IH [of "j\<lparr>updated_at := now env\<rparr>" "fails @ [(ct, cause)]"] by simp
    next
      case (Inr g)
      with False show ?thesis
        using Cons.IH [of "appendOutput env j ct g" fails] by (auto simp: appendOutput_def)
    qed
  qed
qed

lemma attempt_all_attempted:
  "ct \<in> set cts \<Longrightarrow>
     ct \<in> set (map content_type (outputs (fst (attempt_all env cts (j, fails)))))
     \<or> isl (generate env ct)"
proof (induction cts arbitrary: j fails)
  case Nil
  then show ?case by simp
next
  case (Cons c cts)
  show ?case
  proof (cases "ct = c")
    case False
    with Cons.prems have rest: "ct \<in> set cts" by simp
    show ?thesis
    proof (cases "c \<in> set (map content_type (outputs j))")
      case True
      then show ?thesis using Cons.IH [OF rest, of j fails] by simp
    next
      case absent: False
      show ?thesis
      proof (cases "generate env c")
        case (Inl cause)
        with absent show ?thesis
          using Cons.IH [OF rest, of "j\<lparr>updated_at := now env\<rparr>" "fails @ [(c, cause)]"] by simp
      next
        case (Inr g)
        with absent show ?thesis
          using Cons.IH [OF rest, of "appendOutput env j c g" fails] by simp
      qed
    qed
  next
    case True
    show ?thesis
    proof (cases "c \<in> set (map content_type (outputs j))")
      case present: True
      with attempt_all_keeps_types [of j env cts fails] True show ?thesis by auto
    next
      case absent: False
      show ?thesis
      proof (cases "generate env c")
        case (Inl cause)
        with True show ?thesis by simp
      next
        case (Inr g)
        have "c \<in> set (map content_type (outputs (appendOutput env j c g)))"
          by (simp add: appendOutput_def)
        with attempt_all_keeps_types [of "appendOutput env j c g" env cts fails]
        have "c \<in> set (map content_type (outputs (fst (attempt_all env cts (appendOutput env j c g, fails)))))"
          by blast
        with absent Inr True show ?thesis by simp
      qed
    qed
  qed
qed


lemma orchestrate_unfold:
  assumes "status j = PENDING \<or> status j = PROCESSING"
  shows "orchestrate env j =
     (let r = attempt_all env (content_types j) (j\<lparr>status := PROCESSING\<rparr>, [])
      in if outputs (fst r) \<noteq> []
         then (fst r)\<lparr>status := COMPLETED, completed_at := Some (now env), updated_at := now env\<rparr>
         else (fst r)\<lparr>status := FAILED, error_message := Some (aggregate (snd r)),
                       completed_at := Some (now env), updated_at := now env\<rparr>)"
  using assms by (auto simp: orchestrate_def Let_def content_types_def split: prod.splits)

text \<open>
  C1. For a job that is not yet terminal, after the Orchestrator has attempted every
  requested content type (each has an Output or its generation failed): the job is
  COMPLETED if it holds at least one Output, and it is FAILED exactly when it holds none,
  which is when it held none before and every requested generation failed. A FAILED job
  carries the aggregated error message, which names every requested content type with
  the cause of its failure.
\<close>

theorem orchestrate_completion_rule:
  assumes "status j = PENDING \<or> status j = PROCESSING"
  shows "(outputs (orchestrate env j) \<noteq> [] \<longrightarrow> status (orchestrate env j) = COMPLETED)
    \<and> (status (orchestrate env j) = FAILED \<longleftrightarrow> outputs (orchestrate env j) = [])
    \<and> (outputs (orchestrate env j) = [] \<longleftrightarrow>
         outputs j = [] \<and> (\<forall>ct \<in> set (content_types j). isl (generate env ct)))
    \<and> (\<forall>ct \<in> set (content_types j).
         ct \<in> set (map content_type (outputs (orchestrate env j))) \<or> isl (generate env ct))
    \<and> (status (orchestrate env j) = FAILED \<longrightarrow>
         error_message (orchestrate env j)
           = Some (aggregate (map (failure_of env) (content_types j)))
         \<and> (\<forall>ct \<in> set (content_types j).
               sublist (ContentType_value ct @ '': '' @ projl (generate env ct))
                 (aggregate (map (failure_of env) (content_types j)))))"
proof -
  let ?r = "attempt_all env (content_types j) (j\<lparr>status := PROCESSING\<rparr>, [])"
  let ?j' = "orchestrate env j"
  have out: "outputs ?j' = outputs (fst ?r)"
    by (simp add: orchestrate_unfold [OF assms] Let_def)
  have st: "status ?j' = (if outputs (fst ?r) \<noteq> [] then COMPLETED else FAILED)"
    by (simp add: orchestrate_unfold [OF assms] Let_def)
  have empty: "outputs (fst ?r) = [] \<longleftrightarrow>
      outputs j = [] \<and> (\<forall>ct \<in> set (content_types j). isl (generate env ct))"
    by (simp add: attempt_all_outputs_empty)
  have attempted: "\<forall>ct \<in> set (content_types j).
      ct \<in> set (map content_type (outputs ?j')) \<or> isl (generate env ct)"
    unfolding out using attempt_all_attempted by blast
  have msg: "error_message ?j' = Some (aggregate (map (failure_of env) (content_types j)))"
    if "status ?j' = FAILED"
  proof -
    from that st have e: "outputs (fst ?r) = []" by (simp split: if_splits)
    with empty have "snd ?r = [] @ map (failure_of env) (content_types j)"
      by (intro attempt_all_failures) simp_all
    with e show ?thesis by (simp add: orchestrate_unfold [OF assms] Let_def)
  qed
  have named: "sublist (ContentType_value ct @ '': '' @ projl (generate env ct))
      (aggregate (map (failure_of env) (content_types j)))"
    if "ct \<in> set (content_types j)" for ct
  proof -
    from that have "failure_entry (failure_of env ct)
        \<in> set (map failure_entry (map (failure_of env) (content_types j)))" by simp
    then have "sublist (failure_entry (failure_of env ct))
        (join ''; '' (map failure_entry (map (failure_of env) (content_types j))))"
      by (rule sublist_join)
    then show ?thesis by (simp add: aggregate_def failure_entry_def)
  qed
  show ?thesis using out st empty attempted msg named by auto
qed

theorem orchestrate_completion_rule_witness:
  "status (orchestrate env_text_only new_job_two) = COMPLETED
   \<and> map content_type (outputs (orchestrate env_text_only new_job_two)) = [TWITTER]
   \<and> error_message (orchestrate env_text_only new_job_two) = None
   \<and> status (orchestrate env_all_fail new_job_two) = FAILED
   \<and> outputs (orchestrate env_all_fail new_job_two) = []
   \<and> error_message (orchestrate env_all_fail new_job_two)
       = Some ''twitter: all providers failed; thumbnail: all providers failed''"
proof -
  have p: "status new_job_two = PENDING \<or> status new_job_two = PROCESSING"
    by (simp add: createNewMockJob_def Let_def)
  have a: "map content_type (outputs (orchestrate env_text_only new_job_two)) = [TWITTER]
      \<and> error_message (orchestrate env_text_only new_job_two) = None"
    by code_simp
  have b: "outputs (orchestrate env_all_fail new_job_two) = []
      \<and> aggregate (map (failure_of env_all_fail) (content_types new_job_two))
          = ''twitter: all providers failed; thumbnail: all providers failed''"
    by code_simp
  from a b orchestrate_completion_rule [OF p, of env_text_only]
    orchestrate_completion_rule [OF p, of env_all_fail]
  show ?thesis by auto
qed

lemma attempt_all_frame:
  "error_message (fst (attempt_all env cts (j, fails))) = error_message j
   \<and> completed_at (fst (attempt_all env cts (j, fails))) = completed_at j"
proof (induction cts arbitrary: j fails)
  case Nil
  then show ?case by simp
next
  case (Cons ct cts)
  show ?case
    by (cases "generate env ct") (simp_all add: Cons.IH appendOutput_def)
qed

lemma attempt_all_distinct_types:
  "distinct (map content_type (outputs j)) \<Longrightarrow>
     distinct (map content_type (outputs (fst (attempt_all env cts (j, fails)))))
     \<and> set (map content_type (outputs (fst (attempt_all env cts (j, fails)))))
         \<subseteq> set (map content_type (outputs j)) \<union> set cts"
proof (induction cts arbitrary: j fails)
  case Nil
  then show ?case by simp
next
  case (Cons ct cts)
  show ?case
  proof (cases "ct \<in> set (map content_type (outputs j))")
    case True
    with Cons.IH [OF Cons.prems, of fails] show ?thesis by auto
  next
    case False
    show ?thesis
    proof (cases "generate env ct")
      case (Inl cause)
      have "distinct (map content_type (outputs (j\<lparr>updated_at := now env\<rparr>)))"
        using Cons.prems by simp
      from Cons.IH [OF this, of "fails @ [(ct, cause)]"] False Inl show ?thesis by auto
    next
      case (Inr g)
      have "distinct (map content_type (outputs (appendOutput env j ct g)))"
        using Cons.prems False by (simp add: appendOutput_def)
      from Cons.IH [OF this, of fails] False Inr show ?thesis
        by (auto simp: appendOutput_def)
    qed
  qed
qed

text \<open>
  On the same model a new job (PENDING, without outputs, error message or completion
  time) that has been processed carries an error message exactly when it is FAILED and a
  completion time in both terminal states, and it holds at most one Output for each
  content type and no more Outputs than requested types.
\<close>

lemma orchestrate_store_invariants:
  assumes "status j = PENDING" and "outputs j = []"
    and "error_message j = None" and "completed_at j = None"
  shows "(error_message (orchestrate env j) \<noteq> None \<longleftrightarrow> status (orchestrate env j) = FAILED)
    \<and> (completed_at (orchestrate env j) \<noteq> None \<longleftrightarrow>
         status (orchestrate env j) = COMPLETED \<or> status (orchestrate env j) = FAILED)
    \<and> length (outputs (orchestrate env j)) \<le> length (content_types j)
    \<and> distinct (map content_type (outputs (orchestrate env j)))"
proof -
  let ?r = "attempt_all env (content_types j) (j\<lparr>status := PROCESSING\<rparr>, [])"
  have nt: "status j = PENDING \<or> status j = PROCESSING" using assms(1) by simp
  have frame: "error_message (fst ?r) = None" "completed_at (fst ?r) = None"
    using attempt_all_frame [of env "content_types j" "j\<lparr>status := PROCESSING\<rparr>" "[]"] assms
    by simp_all
  have d: "distinct (map content_type (outputs (fst ?r)))"
    and sub: "set (map content_type (outputs (fst ?r))) \<subseteq> set (content_types j)"
    using attempt_all_distinct_types [of "j\<lparr>status := PROCESSING\<rparr>" env "content_types j" "[]"]
      assms(2) by simp_all
  have "length (map content_type (outputs (fst ?r))) = card (set (map content_type (outputs (fst ?r))))"
    using d by (simp only: distinct_card)
  also have "\<dots> \<le> card (set (content_types j))" using sub by (intro card_mono) simp_all
  also have "\<dots> \<le> length (content_types j)" by (rule card_length)
  finally have len: "length (outputs (fst ?r)) \<le> length (content_types j)" by simp
  show ?thesis
    using frame d len by (simp add: orchestrate_unfold [OF nt] Let_def)
qed

end
